theory Spec2Isabelle
  imports Main "HOL-Library.Word"
begin

section \<open>Cluck: the wire codec (cluck\_message.py)\<close>

text \<open>
  A shallow embedding of the Cluck message codec and of the per-connection server
  protocol. Python values are modelled as follows:
  \<^item> \<open>bytes\<close> is a list of 8-bit words;
  \<open>int\<close> is \<open>int\<close>;
  \<open>str\<close> is a list of Unicode code points (natural numbers), since \<open>len\<close> and
  indexing of a Python string count code points;
  \<^item> \<open>None\<close>-or-value is \<open>option\<close>;
  \<^item> every exception the code can raise is a value of \<open>error\<close>, and a function that can
  raise returns \<open>error + 'a\<close> with \<open>Inl\<close> for the exception.
\<close>

type_synonym byte = "8 word"
type_synonym bytes = "byte list"
type_synonym str = "nat list"

datatype error =
    StructError
  | TypeError
  | AttributeError
  | UnicodeDecodeError
  | UnicodeEncodeError
  | ValueError
  | KeyError
  | OSError

subsection \<open>Constants\<close>

definition CODE_SIZE :: nat where "CODE_SIZE = 2"
definition LENGTH_SIZE :: nat where "LENGTH_SIZE = 2"
definition HEADER_SIZE :: nat where "HEADER_SIZE = CODE_SIZE + LENGTH_SIZE"

definition EMPTY_LENGTH :: int where "EMPTY_LENGTH = 0"

definition CODE_MOTD :: int where "CODE_MOTD = 1"
definition CODE_MOTD_REQUEST :: int where "CODE_MOTD_REQUEST = 2"
definition CODE_COMMAND_SUCCESS :: int where "CODE_COMMAND_SUCCESS = 10"
definition CODE_COMMAND_ERROR :: int where "CODE_COMMAND_ERROR = 11"
definition CODE_REGISTER_USER :: int where "CODE_REGISTER_USER = 100"
definition CODE_USER_STATUS :: int where "CODE_USER_STATUS = 101"
definition CODE_WHOAMI :: int where "CODE_WHOAMI = 110"

text \<open>The code table of the protocol, as a list.\<close>

definition message_codes :: "int list" where
  "message_codes = [CODE_MOTD, CODE_MOTD_REQUEST, CODE_COMMAND_SUCCESS, CODE_COMMAND_ERROR,
     CODE_REGISTER_USER, CODE_USER_STATUS, CODE_WHOAMI]"

subsection \<open>Python primitives the codec uses\<close>

text \<open>
  \<open>struct.pack('!H', n)\<close>: two bytes, most significant first; \<open>struct.error\<close> when
  \<open>n\<close> is outside \<open>0..65535\<close>.
\<close>

definition struct_pack_H :: "int \<Rightarrow> error + bytes" where
  "struct_pack_H n =
     (if 0 \<le> n \<and> n \<le> 65535 then Inr [word_of_int (n div 256), word_of_int (n mod 256)]
      else Inl StructError)"

text \<open>
  \<open>struct.unpack('!H', b)[0]\<close>: \<open>struct.error\<close> unless the buffer holds exactly two
  bytes.
\<close>

definition struct_unpack_H :: "bytes \<Rightarrow> error + int" where
  "struct_unpack_H b =
     (case b of [hi, lo] \<Rightarrow> Inr (uint hi * 256 + uint lo) | _ \<Rightarrow> Inl StructError)"

text \<open>
  The slice \<open>raw[i:j]\<close> for indices \<open>0 \<le> i \<le> j\<close>: it never raises, and is cut short
  where the sequence ends.
\<close>

definition slice :: "'a list \<Rightarrow> nat \<Rightarrow> nat \<Rightarrow> 'a list" where
  "slice raw i j = take (j - i) (drop i raw)"

subsection \<open>class Message\<close>

text \<open>
  \<open>Message(code, data)\<close>; the selectors are the getters \<open>get_code\<close> and
  \<open>get_data\<close> of the class.
\<close>

datatype message = Message (get_code: int) (get_data: "bytes option")

text \<open>\<open>if self.data:\<close> is false for \<open>None\<close> and for the empty byte string.\<close>

definition has_data :: "message \<Rightarrow> bool" where
  "has_data m = (case get_data m of None \<Rightarrow> False | Some d \<Rightarrow> d \<noteq> [])"

definition get_length :: "message \<Rightarrow> int" where
  "get_length m =
     (case get_data m of
        None \<Rightarrow> EMPTY_LENGTH
      | Some d \<Rightarrow> if d \<noteq> [] then int (length d) else EMPTY_LENGTH)"

definition pack_code :: "message \<Rightarrow> error + bytes" where
  "pack_code m = struct_pack_H (get_code m)"

definition pack_length :: "message \<Rightarrow> error + bytes" where
  "pack_length m = struct_pack_H (get_length m)"

definition pack_header :: "message \<Rightarrow> error + bytes" where
  "pack_header m =
     (case pack_code m of
        Inl e \<Rightarrow> Inl e
      | Inr c \<Rightarrow> (case pack_length m of Inl e \<Rightarrow> Inl e | Inr l \<Rightarrow> Inr (c @ l)))"

text \<open>
  \<open>self._pack_header() + self.data\<close>: the header is computed first; adding \<open>None\<close>
  to a byte string raises \<open>TypeError\<close>.
\<close>

definition pack :: "message \<Rightarrow> error + bytes" where
  "pack m =
     (case pack_header m of
        Inl e \<Rightarrow> Inl e
      | Inr h \<Rightarrow> (case get_data m of None \<Rightarrow> Inl TypeError | Some d \<Rightarrow> Inr (h @ d)))"

subsection \<open>decode\<close>

definition unpack_code :: "bytes \<Rightarrow> error + int" where
  "unpack_code raw = struct_unpack_H (slice raw 0 CODE_SIZE)"

definition unpack_length :: "bytes \<Rightarrow> error + int" where
  "unpack_length raw = struct_unpack_H (slice raw CODE_SIZE (CODE_SIZE + LENGTH_SIZE))"

definition unpack_data :: "bytes \<Rightarrow> int \<Rightarrow> bytes option" where
  "unpack_data raw len =
     (if len > 0 \<and> len < int (length raw)
      then Some (slice raw HEADER_SIZE (HEADER_SIZE + nat len))
      else None)"

definition decode :: "bytes \<Rightarrow> error + message" where
  "decode raw =
     (case unpack_code raw of
        Inl e \<Rightarrow> Inl e
      | Inr c \<Rightarrow>
          (case unpack_length raw of
             Inl e \<Rightarrow> Inl e
           | Inr len \<Rightarrow> Inr (Message c (unpack_data raw len))))"

subsection \<open>Text: \<open>str.encode()\<close> and \<open>bytes.decode()\<close> (UTF-8, strict)\<close>

text \<open>A string literal of the source (ASCII), as a list of code points.\<close>

definition lit :: "string \<Rightarrow> str" where
  "lit s = map of_char s"

text \<open>
  UTF-8 encoding of one code point. Surrogates (\<open>U+D800..U+DFFF\<close>) raise
  \<open>UnicodeEncodeError\<close>; a Python string holds no value above \<open>U+10FFFF\<close>, so the
  last branch is never taken by a value of the source's type.
\<close>

definition encode_code_point :: "nat \<Rightarrow> error + bytes" where
  "encode_code_point c =
     (if c < 0x80 then Inr [of_nat c]
      else if c < 0x800 then Inr [of_nat (0xC0 + c div 64), of_nat (0x80 + c mod 64)]
      else if c < 0x10000 then
        (if 0xD800 \<le> c \<and> c \<le> 0xDFFF then Inl UnicodeEncodeError
         else Inr [of_nat (0xE0 + c div 4096), of_nat (0x80 + c div 64 mod 64),
                   of_nat (0x80 + c mod 64)])
      else if c < 0x110000 then
        Inr [of_nat (0xF0 + c div 262144), of_nat (0x80 + c div 4096 mod 64),
             of_nat (0x80 + c div 64 mod 64), of_nat (0x80 + c mod 64)]
      else Inl UnicodeEncodeError)"

fun str_encode :: "str \<Rightarrow> error + bytes" where
  "str_encode [] = Inr []"
| "str_encode (c # cs) =
     (case encode_code_point c of
        Inl e \<Rightarrow> Inl e
      | Inr b \<Rightarrow> (case str_encode cs of Inl e \<Rightarrow> Inl e | Inr bs \<Rightarrow> Inr (b @ bs)))"

definition continuation :: "byte \<Rightarrow> bool" where
  "continuation b = (0x80 \<le> unat b \<and> unat b \<le> 0xBF)"

definition prepend :: "nat \<Rightarrow> error + str \<Rightarrow> error + str" where
  "prepend c r = (case r of Inl e \<Rightarrow> Inl e | Inr s \<Rightarrow> Inr (c # s))"

text \<open>
  Strict UTF-8 decoding: shortest forms only, no surrogates, nothing above \<open>U+10FFFF\<close>;
  any other byte sequence raises \<open>UnicodeDecodeError\<close>.
\<close>

fun bytes_decode :: "bytes \<Rightarrow> error + str" where
  "bytes_decode [] = Inr []"
| "bytes_decode (b0 # rest) =
     (if unat b0 < 0x80 then prepend (unat b0) (bytes_decode rest)
      else if 0xC2 \<le> unat b0 \<and> unat b0 \<le> 0xDF then
        (case rest of
           b1 # r \<Rightarrow>
             if continuation b1
             then prepend ((unat b0 - 0xC0) * 64 + (unat b1 - 0x80)) (bytes_decode r)
             else Inl UnicodeDecodeError
         | _ \<Rightarrow> Inl UnicodeDecodeError)
      else if 0xE0 \<le> unat b0 \<and> unat b0 \<le> 0xEF then
        (case rest of
           b1 # b2 # r \<Rightarrow>
             if continuation b1 \<and> continuation b2
                \<and> (unat b0 = 0xE0 \<longrightarrow> 0xA0 \<le> unat b1)
                \<and> (unat b0 = 0xED \<longrightarrow> unat b1 \<le> 0x9F)
             then prepend ((unat b0 - 0xE0) * 4096 + (unat b1 - 0x80) * 64 + (unat b2 - 0x80))
                    (bytes_decode r)
             else Inl UnicodeDecodeError
         | _ \<Rightarrow> Inl UnicodeDecodeError)
      else if 0xF0 \<le> unat b0 \<and> unat b0 \<le> 0xF4 then
        (case rest of
           b1 # b2 # b3 # r \<Rightarrow>
             if continuation b1 \<and> continuation b2 \<and> continuation b3
                \<and> (unat b0 = 0xF0 \<longrightarrow> 0x90 \<le> unat b1)
                \<and> (unat b0 = 0xF4 \<longrightarrow> unat b1 \<le> 0x8F)
             then prepend ((unat b0 - 0xF0) * 262144 + (unat b1 - 0x80) * 4096
                           + (unat b2 - 0x80) * 64 + (unat b3 - 0x80))
                    (bytes_decode r)
             else Inl UnicodeDecodeError
         | _ \<Rightarrow> Inl UnicodeDecodeError)
      else Inl UnicodeDecodeError)"

text \<open>
  \<open>self.data.decode()\<close>: the codec is Python's default, UTF-8, whatever the method's
  name says; \<open>None\<close> has no \<open>decode\<close>.
\<close>

definition get_data_ascii :: "message \<Rightarrow> error + str" where
  "get_data_ascii m =
     (case get_data m of None \<Rightarrow> Inl AttributeError | Some d \<Rightarrow> bytes_decode d)"

subsection \<open>Utility functions that create messages\<close>

definition pack_motd :: "str \<Rightarrow> error + bytes" where
  "pack_motd text =
     (case str_encode text of Inl e \<Rightarrow> Inl e | Inr b \<Rightarrow> pack (Message CODE_MOTD (Some b)))"

definition pack_motd_req :: "error + bytes" where
  "pack_motd_req = pack (Message CODE_MOTD_REQUEST None)"

definition pack_cmd_success :: "str \<Rightarrow> error + bytes" where
  "pack_cmd_success text =
     (case str_encode text of
        Inl e \<Rightarrow> Inl e
      | Inr b \<Rightarrow> pack (Message CODE_COMMAND_SUCCESS (Some b)))"

definition pack_cmd_error :: "str \<Rightarrow> error + bytes" where
  "pack_cmd_error text =
     (case str_encode text of
        Inl e \<Rightarrow> Inl e
      | Inr b \<Rightarrow> pack (Message CODE_COMMAND_ERROR (Some b)))"

definition pack_register_user :: "str \<Rightarrow> error + bytes" where
  "pack_register_user text =
     (case str_encode text of
        Inl e \<Rightarrow> Inl e
      | Inr b \<Rightarrow> pack (Message CODE_REGISTER_USER (Some b)))"

definition pack_user_status :: "str \<Rightarrow> error + bytes" where
  "pack_user_status text =
     (case str_encode text of
        Inl e \<Rightarrow> Inl e
      | Inr b \<Rightarrow> pack (Message CODE_USER_STATUS (Some b)))"

definition pack_whoami :: "error + bytes" where
  "pack_whoami = pack (Message CODE_WHOAMI None)"

section \<open>The server protocol (cluck\_server.py)\<close>

subsection \<open>Python primitives the server uses\<close>

text \<open>\<open>'{}'.format(n)\<close> for an integer: its decimal digits, with a sign when negative.\<close>

fun digits :: "nat \<Rightarrow> str" where
  "digits n = (if n < 10 then [48 + n] else digits (n div 10) @ [48 + n mod 10])"

declare digits.simps [simp del]

definition int_str :: "int \<Rightarrow> str" where
  "int_str i = (if i < 0 then 45 # digits (nat (- i)) else digits (nat i))"

text \<open>
  \<open>'{}'.format(b)\<close> for a byte string is its \<open>repr\<close>: \<open>b'...'\<close>, in double quotes
  when the bytes hold a single quote and no double quote; backslash, the quote, tab,
  newline and carriage return are escaped, every other byte outside \<open>0x20..0x7e\<close> is
  written \<open>\xhh\<close>.
\<close>

definition hex_digit :: "nat \<Rightarrow> nat" where
  "hex_digit n = (if n < 10 then 48 + n else 87 + n)"

definition repr_byte :: "nat \<Rightarrow> byte \<Rightarrow> str" where
  "repr_byte q b =
     (if unat b = q \<or> unat b = 92 then [92, unat b]
      else if unat b = 9 then [92, 116]
      else if unat b = 10 then [92, 110]
      else if unat b = 13 then [92, 114]
      else if unat b < 32 \<or> 127 \<le> unat b
        then [92, 120, hex_digit (unat b div 16), hex_digit (unat b mod 16)]
      else [unat b])"

definition bytes_repr :: "bytes \<Rightarrow> str" where
  "bytes_repr b =
     (let q = (if 39 \<in> set b \<and> 34 \<notin> set b then 34 else 39)
      in [98, q] @ concat (map (repr_byte q) b) @ [q])"

text \<open>
  \<open>c.isalpha()\<close> for one character: the ASCII letters below 128; above, the letter
  categories of the Unicode database, which is not part of the program and is taken as
  a parameter.
\<close>

definition isalpha :: "(nat \<Rightarrow> bool) \<Rightarrow> nat \<Rightarrow> bool" where
  "isalpha unicode_letter c =
     (if c < 128 then (65 \<le> c \<and> c \<le> 90) \<or> (97 \<le> c \<and> c \<le> 122) else unicode_letter c)"

text \<open>The characters that \<open>\s\<close> matches in a \<open>str\<close> pattern (Unicode whitespace).\<close>

definition whitespace :: "nat \<Rightarrow> bool" where
  "whitespace c =
     ((0x09 \<le> c \<and> c \<le> 0x0D) \<or> (0x1C \<le> c \<and> c \<le> 0x20) \<or> c = 0x85 \<or> c = 0xA0
      \<or> c = 0x1680 \<or> (0x2000 \<le> c \<and> c \<le> 0x200A) \<or> c = 0x2028 \<or> c = 0x2029
      \<or> c = 0x202F \<or> c = 0x205F \<or> c = 0x3000)"

text \<open>\<open>re.search(r"\s", s)\<close>: the first whitespace character of \<open>s\<close>, or \<open>None\<close>.\<close>

definition re_search_whitespace :: "str \<Rightarrow> nat option" where
  "re_search_whitespace s = find whitespace s"

subsection \<open>Validation\<close>

definition validate_username :: "(nat \<Rightarrow> bool) \<Rightarrow> str \<Rightarrow> str option" where
  "validate_username unicode_letter username =
     (if length username < 1
        then Some (lit ''user names must contain least one character.'')
      else if length username > 12
        then Some (lit ''user names cannot contain more than twelve characters.'')
      else if \<not> isalpha unicode_letter (username ! 0)
        then Some (lit ''user names must begin with alphanumeric characters.'')
      else if re_search_whitespace username \<noteq> None
        then Some (lit ''user names cannot contain whitespace.'')
      else None)"

subsection \<open>State\<close>

text \<open>
  A transport is an object of the event loop; it is identified by a handle. The three
  connection states are the string constants of the source.
\<close>

type_synonym transport = nat

datatype conn_state = STATE_CONNECTED | STATE_READY | STATE_ERROR

text \<open>
  The context holds the two objects that \<open>run_server\<close> creates and hands to every
  protocol instance (the list \<open>connections\<close> and the dictionary
  \<open>connection_states\<close>), and what the program does to its transports: the frames
  written, in order, and the handles closed. A transport in \<open>broken\<close> is one whose
  \<open>write\<close> raises.
\<close>

record server_context =
  connections :: "transport list"
  connection_states :: "transport \<rightharpoonup> conn_state"
  written :: "(transport \<times> bytes) list"
  closed :: "transport list"
  broken :: "transport set"

text \<open>
  One protocol instance per connection. The attribute \<open>transport\<close> does not exist
  before \<open>connection_made\<close>; reading it then raises \<open>AttributeError\<close>.
\<close>

record CluckServer =
  user :: "str option"
  transport :: "transport option"

text \<open>
  What the program takes from outside: the Unicode letter table behind
  \<open>str.isalpha\<close>, and the banner that pyfiglet renders for \<open>get_motd\<close> (or the
  exception it raises).
\<close>

record externals =
  unicode_letter :: "nat \<Rightarrow> bool"
  figlet_banner :: "error + str"

type_synonym outcome = "error option \<times> CluckServer \<times> server_context"

definition CluckServer_init :: CluckServer where
  "CluckServer_init = \<lparr>user = None, transport = None\<rparr>"

subsection \<open>Sending\<close>

definition send_to :: "server_context \<Rightarrow> bytes \<Rightarrow> transport \<Rightarrow> error option \<times> server_context" where
  "send_to w frame t =
     (if t \<in> broken w then (Some OSError, w)
      else (None, w\<lparr>written := written w @ [(t, frame)]\<rparr>))"

definition send :: "CluckServer \<Rightarrow> server_context \<Rightarrow> bytes \<Rightarrow> error option \<times> server_context" where
  "send p w frame =
     (case transport p of None \<Rightarrow> (Some AttributeError, w) | Some t \<Rightarrow> send_to w frame t)"

text \<open>
  \<open>self._send(pack(...))\<close>: the argument is evaluated first, and an exception raised
  there leaves nothing sent.
\<close>

definition send_packed :: "CluckServer \<Rightarrow> server_context \<Rightarrow> error + bytes \<Rightarrow> outcome" where
  "send_packed p w packed =
     (case packed of
        Inl e \<Rightarrow> (Some e, p, w)
      | Inr frame \<Rightarrow> (case send p w frame of (e, w') \<Rightarrow> (e, p, w')))"

fun broadcast_loop :: "server_context \<Rightarrow> bytes \<Rightarrow> transport list \<Rightarrow> error option \<times> server_context" where
  "broadcast_loop w frame [] = (None, w)"
| "broadcast_loop w frame (t # ts) =
     (case connection_states w t of
        None \<Rightarrow> (Some KeyError, w)
      | Some conn_state \<Rightarrow>
          if conn_state = STATE_READY
          then (case send_to w frame t of
                  (Some e, w') \<Rightarrow> (Some e, w')
                | (None, w') \<Rightarrow> broadcast_loop w' frame ts)
          else broadcast_loop w frame ts)"

definition broadcast :: "server_context \<Rightarrow> bytes \<Rightarrow> error option \<times> server_context" where
  "broadcast w frame = broadcast_loop w frame (connections w)"

subsection \<open>Connection state\<close>

definition initialize_connection :: "CluckServer \<Rightarrow> server_context \<Rightarrow> transport \<Rightarrow> CluckServer \<times> server_context" where
  "initialize_connection p w t =
     (p\<lparr>transport := Some t\<rparr>,
      w\<lparr>connections := connections w @ [t],
        connection_states := (connection_states w)(t \<mapsto> STATE_CONNECTED)\<rparr>)"

definition connection_made :: "CluckServer \<Rightarrow> server_context \<Rightarrow> transport \<Rightarrow> CluckServer \<times> server_context" where
  "connection_made p w t = initialize_connection p w t"

definition get_state :: "CluckServer \<Rightarrow> server_context \<Rightarrow> error + conn_state" where
  "get_state p w =
     (case transport p of
        None \<Rightarrow> Inl AttributeError
      | Some t \<Rightarrow> (case connection_states w t of None \<Rightarrow> Inl KeyError | Some s \<Rightarrow> Inr s))"

definition set_state :: "CluckServer \<Rightarrow> server_context \<Rightarrow> conn_state \<Rightarrow> error option \<times> server_context" where
  "set_state p w s =
     (case transport p of
        None \<Rightarrow> (Some AttributeError, w)
      | Some t \<Rightarrow> (None, w\<lparr>connection_states := (connection_states w)(t \<mapsto> s)\<rparr>))"

text \<open>
  \<open>connection_lost\<close>: close the transport, then \<open>list.remove\<close> (\<open>ValueError\<close> when
  the handle is not in the list), then \<open>dict.pop\<close> without a default (\<open>KeyError\<close>
  when the key is missing). What was done before an exception stays done.
\<close>

definition connection_lost :: "CluckServer \<Rightarrow> server_context \<Rightarrow> error option \<times> server_context" where
  "connection_lost p w =
     (case transport p of
        None \<Rightarrow> (Some AttributeError, w)
      | Some t \<Rightarrow>
          (let w1 = w\<lparr>closed := closed w @ [t]\<rparr> in
           if t \<notin> set (connections w1) then (Some ValueError, w1)
           else
             (let w2 = w1\<lparr>connections := remove1 t (connections w1)\<rparr> in
              if connection_states w2 t = None then (Some KeyError, w2)
              else (None, w2\<lparr>connection_states := (connection_states w2)(t := None)\<rparr>))))"

subsection \<open>Handlers\<close>

definition get_motd :: "externals \<Rightarrow> error + str" where
  "get_motd X = figlet_banner X"

text \<open>
  \<open>if user:\<close> and \<open>if error:\<close> are false for \<open>None\<close> and for the empty string.
\<close>

definition truthy :: "str option \<Rightarrow> bool" where
  "truthy v = (case v of None \<Rightarrow> False | Some s \<Rightarrow> s \<noteq> [])"

definition handle_whoami_request :: "CluckServer \<Rightarrow> server_context \<Rightarrow> message \<Rightarrow> outcome" where
  "handle_whoami_request p w m =
     (if truthy (user p) then send_packed p w (pack_user_status (the (user p)))
      else send_packed p w (pack_cmd_error (lit ''user_status: host has no registered users.'')))"

definition handle_register_user :: "externals \<Rightarrow> CluckServer \<Rightarrow> server_context \<Rightarrow> message \<Rightarrow> outcome" where
  "handle_register_user X p w m =
     (case (if has_data m then get_data_ascii m else Inr []) of
        Inl e \<Rightarrow> (Some e, p, w)
      | Inr u \<Rightarrow>
          (let error = validate_username (unicode_letter X) u in
           if truthy error
           then send_packed p w (pack_cmd_error (lit ''register_user_error: '' @ the error))
           else send_packed (p\<lparr>user := Some u\<rparr>) w
                  (pack_cmd_success
                     (lit ''register_user_success: '' @ u @ lit '' confirmed.''))))"

definition handle_motd_request :: "externals \<Rightarrow> CluckServer \<Rightarrow> server_context \<Rightarrow> message \<Rightarrow> outcome" where
  "handle_motd_request X p w m =
     (case get_motd X of
        Inl e \<Rightarrow> (Some e, p, w)
      | Inr motd \<Rightarrow> send_packed p w (pack_motd motd))"

text \<open>The dispatch table that the constructor builds.\<close>

definition protocol_paths ::
    "externals \<Rightarrow> int \<rightharpoonup> (CluckServer \<Rightarrow> server_context \<Rightarrow> message \<Rightarrow> outcome)" where
  "protocol_paths X =
     [CODE_MOTD_REQUEST \<mapsto> handle_motd_request X,
      CODE_REGISTER_USER \<mapsto> handle_register_user X,
      CODE_WHOAMI \<mapsto> handle_whoami_request]"

text \<open>
  \<open>data_received\<close>. Reading \<open>self.transport\<close> comes before the \<open>try\<close>; everything
  after it runs under \<open>except Exception\<close>, which logs and returns, keeping what the
  handler did before it raised.
\<close>

definition data_received :: "externals \<Rightarrow> CluckServer \<Rightarrow> server_context \<Rightarrow> bytes \<Rightarrow> outcome" where
  "data_received X p w data =
     (case transport p of
        None \<Rightarrow> (Some AttributeError, p, w)
      | Some t \<Rightarrow>
          (case
             (if length data < HEADER_SIZE
              then send_packed p w
                     (pack_cmd_error
                        (lit ''malformed_packet_error: incomplete header, '' @ bytes_repr data))
              else
                (case decode data of
                   Inl e \<Rightarrow> (Some e, p, w)
                 | Inr message \<Rightarrow>
                     (case protocol_paths X (get_code message) of
                        Some handler \<Rightarrow> handler p w message
                      | None \<Rightarrow>
                          send_packed p w
                            (pack_cmd_error
                               (lit ''malformed_packet_error: bad message code (''
                                @ int_str (get_code message) @ lit '')'')))))
           of (e, p', w') \<Rightarrow> (None, p', w')))"

subsection \<open>The event loop\<close>

text \<open>
  The event loop creates one protocol instance for each accepted connection, calls its
  \<open>connection_made\<close> once with a transport that no live connection holds, then
  \<open>data_received\<close> for each chunk that arrives, and \<open>connection_lost\<close> once, after
  which the instance is dropped. Events that the loop cannot produce (a second
  \<open>connection_made\<close> on a live transport, data or loss on a transport that is not
  connected) change nothing.
\<close>

record system =
  shared :: server_context
  protocols :: "transport \<rightharpoonup> CluckServer"

datatype event =
    Connection_made transport
  | Data_received transport bytes
  | Connection_lost transport

definition startup :: "transport set \<Rightarrow> system" where
  "startup B =
     \<lparr>shared = \<lparr>connections = [], connection_states = Map.empty, written = [], closed = [],
                broken = B\<rparr>,
      protocols = Map.empty\<rparr>"

fun step :: "externals \<Rightarrow> system \<Rightarrow> event \<Rightarrow> system" where
  "step X s (Connection_made t) =
     (if protocols s t \<noteq> None then s
      else (case connection_made CluckServer_init (shared s) t of
              (p, w) \<Rightarrow> s\<lparr>shared := w, protocols := (protocols s)(t \<mapsto> p)\<rparr>))"
| "step X s (Data_received t data) =
     (case protocols s t of
        None \<Rightarrow> s
      | Some p \<Rightarrow>
          (case data_received X p (shared s) data of
             (e, p', w) \<Rightarrow> s\<lparr>shared := w, protocols := (protocols s)(t \<mapsto> p')\<rparr>))"
| "step X s (Connection_lost t) =
     (case protocols s t of
        None \<Rightarrow> s
      | Some p \<Rightarrow>
          (case connection_lost p (shared s) of
             (e, w) \<Rightarrow> s\<lparr>shared := w, protocols := (protocols s)(t := None)\<rparr>))"

definition run :: "externals \<Rightarrow> system \<Rightarrow> event list \<Rightarrow> system" where
  "run X s evs = foldl (step X) s evs"

subsection \<open>Consistency of the registry with the live connections\<close>

text \<open>
  What the event loop maintains: the list holds each live transport once, the dictionary
  has a state for exactly the live transports, each protocol instance is bound to its
  own transport, and every recorded state is \<open>STATE_CONNECTED\<close>.
\<close>

definition consistent :: "system \<Rightarrow> bool" where
  "consistent s \<longleftrightarrow>
     distinct (connections (shared s))
     \<and> set (connections (shared s)) = dom (protocols s)
     \<and> dom (connection_states (shared s)) = dom (protocols s)
     \<and> (\<forall>t p. protocols s t = Some p \<longrightarrow> transport p = Some t)
     \<and> (\<forall>t st. connection_states (shared s) t = Some st \<longrightarrow> st = STATE_CONNECTED)"

subsection \<open>Values used in examples\<close>

text \<open>A byte-string literal of ASCII characters, \<open>b'...'\<close>.\<close>

definition bytes_lit :: "string \<Rightarrow> bytes" where
  "bytes_lit s = map of_nat (lit s)"

text \<open>An environment with no letters beyond ASCII and a short banner.\<close>

definition sample_externals :: externals where
  "sample_externals = \<lparr>unicode_letter = (\<lambda>c. False), figlet_banner = Inr (lit ''Cluck!'')\<rparr>"

text \<open>A server that has accepted one connection, on transport 0, and nothing else.\<close>

definition one_connection :: "CluckServer \<times> server_context" where
  "one_connection = connection_made CluckServer_init (shared (startup {})) 0"

section \<open>Properties of the codec\<close>

subsection \<open>Header arithmetic\<close>

lemma struct_unpack_pack:
  assumes "0 \<le> n" "n \<le> 65535"
  shows "struct_unpack_H [word_of_int (n div 256), word_of_int (n mod 256)] = Inr n"
proof -
  have hi: "uint (word_of_int (n div 256) :: byte) = n div 256"
    using assms by (simp add: uint_word_of_int take_bit_eq_mod)
  have lo: "uint (word_of_int (n mod 256) :: byte) = n mod 256"
    by (simp add: uint_word_of_int take_bit_eq_mod)
  show ?thesis by (simp add: struct_unpack_H_def hi lo)
qed

lemma uint_pair_range:
  "0 \<le> uint (a::byte) * 256 + uint (b::byte) \<and> uint a * 256 + uint b \<le> 65535"
  using uint_bounded [of a] uint_bounded [of b] by simp

lemma pack_present:
  assumes "0 \<le> c" "c \<le> 65535" "length d \<le> 65535"
  shows "pack (Message c (Some d)) =
     Inr ([word_of_int (c div 256), word_of_int (c mod 256),
           word_of_int (int (length d) div 256), word_of_int (int (length d) mod 256)] @ d)"
  using assms
  by (simp add: pack_def pack_header_def pack_code_def pack_length_def get_length_def
      struct_pack_H_def EMPTY_LENGTH_def)

lemma decode_header:
  "decode (c1 # c2 # l1 # l2 # d) =
     Inr (Message (uint c1 * 256 + uint c2)
        (unpack_data (c1 # c2 # l1 # l2 # d) (uint l1 * 256 + uint l2)))"
  by (simp add: decode_def unpack_code_def unpack_length_def slice_def struct_unpack_H_def
      CODE_SIZE_def LENGTH_SIZE_def)

lemma unpack_length_header:
  "unpack_length (c1 # c2 # l1 # l2 # d) = Inr (uint l1 * 256 + uint l2)"
  by (simp add: unpack_length_def slice_def struct_unpack_H_def CODE_SIZE_def LENGTH_SIZE_def)

lemma header_split:
  assumes "HEADER_SIZE \<le> length raw"
  obtains c1 c2 l1 l2 d where "raw = c1 # c2 # l1 # l2 # d"
proof -
  from assms have "4 \<le> length raw"
    by (simp add: HEADER_SIZE_def CODE_SIZE_def LENGTH_SIZE_def)
  then obtain c1 r1 where "raw = c1 # r1" "3 \<le> length r1" by (cases raw) auto
  moreover then obtain c2 r2 where "r1 = c2 # r2" "2 \<le> length r2" by (cases r1) auto
  moreover then obtain l1 r3 where "r2 = l1 # r3" "1 \<le> length r3" by (cases r2) auto
  moreover then obtain l2 d where "r3 = l2 # d" by (cases r3) auto
  ultimately show ?thesis using that by simp
qed

lemma decode_pack_present:
  assumes "0 \<le> c" "c \<le> 65535" "length d \<le> 65535"
  shows "\<exists>raw. pack (Message c (Some d)) = Inr raw
           \<and> decode raw = Inr (Message c (if d = [] then None else Some d))"
proof -
  let ?n = "int (length d)"
  have n: "0 \<le> ?n" "?n \<le> 65535" using assms by simp_all
  have c: "uint (word_of_int (c div 256) :: byte) * 256
             + uint (word_of_int (c mod 256) :: byte) = c"
    using struct_unpack_pack [OF assms(1,2)] by (simp add: struct_unpack_H_def)
  have l: "uint (word_of_int (?n div 256) :: byte) * 256
             + uint (word_of_int (?n mod 256) :: byte) = ?n"
    using struct_unpack_pack [OF n] by (simp add: struct_unpack_H_def)
  have "decode ([word_of_int (c div 256), word_of_int (c mod 256),
           word_of_int (?n div 256), word_of_int (?n mod 256)] @ d)
        = Inr (Message c (if d = [] then None else Some d))"
    by (simp only: append_Cons append_Nil decode_header c l)
       (simp add: unpack_data_def slice_def HEADER_SIZE_def CODE_SIZE_def LENGTH_SIZE_def)
  then show ?thesis using pack_present [OF assms] by simp
qed

lemma message_codes_range: "c \<in> set message_codes \<Longrightarrow> 0 \<le> c \<and> c \<le> 65535"
  by (auto simp: message_codes_def CODE_MOTD_def CODE_MOTD_REQUEST_def
      CODE_COMMAND_SUCCESS_def CODE_COMMAND_ERROR_def CODE_REGISTER_USER_def
      CODE_USER_STATUS_def CODE_WHOAMI_def)

subsection \<open>Round trip\<close>

text \<open>
  Claim C1. For every code of the code table and every byte string \<open>d\<close> of at most
  65535 bytes, packing the message \<open>(c, d)\<close> succeeds and decoding the frame gives back
  the code \<open>c\<close> and the payload \<open>d\<close>; for the empty byte string the decoded payload is
  absent (\<open>None\<close>). In both cases the decoded message reports the length of \<open>d\<close>,
  which is 0 for the empty one.
\<close>

theorem round_trip:
  assumes "c \<in> set message_codes" and "length d \<le> 65535"
  shows "\<exists>raw m. pack (Message c (Some d)) = Inr raw \<and> decode raw = Inr m
           \<and> get_code m = c
           \<and> get_data m = (if d = [] then None else Some d)
           \<and> get_length m = int (length d)"
proof -
  have "0 \<le> c \<and> c \<le> 65535"
    using assms(1) by (rule message_codes_range)
  then obtain raw where "pack (Message c (Some d)) = Inr raw"
      "decode raw = Inr (Message c (if d = [] then None else Some d))"
    using decode_pack_present [of c d] assms(2) by blast
  then show ?thesis
    by (cases "d = []") (auto simp: get_length_def EMPTY_LENGTH_def)
qed

theorem round_trip_witness:
  "CODE_MOTD \<in> set message_codes \<and> length [72, 105 :: byte] \<le> 65535
   \<and> pack (Message CODE_MOTD (Some [72, 105])) = Inr [0, 1, 0, 2, 72, 105]
   \<and> decode [0, 1, 0, 2, 72, 105] = Inr (Message CODE_MOTD (Some [72, 105]))"
proof -
  have h1: "CODE_MOTD \<in> set message_codes" by (simp add: message_codes_def)
  have h2: "length [72, 105 :: byte] \<le> 65535" by simp
  have p: "pack (Message CODE_MOTD (Some [72, 105])) = Inr [0, 1, 0, 2, 72, 105]"
    by (simp add: pack_def pack_header_def pack_code_def pack_length_def get_length_def
      struct_pack_H_def CODE_MOTD_def)
  from round_trip [OF h1 h2] p obtain m where
    "decode [0, 1, 0, 2, 72, 105] = Inr m" "get_code m = CODE_MOTD"
    "get_data m = Some [72, 105]"
    by auto
  then have "decode [0, 1, 0, 2, 72, 105] = Inr (Message CODE_MOTD (Some [72, 105]))"
    by (cases m) simp
  with h1 h2 p show ?thesis by simp
qed

subsection \<open>The length guard of \<open>unpack_data\<close>\<close>

text \<open>
  Claim C2, as the code has it. The guard compares the declared length with the length
  of the whole frame, header included. So for a frame of at least four bytes the
  payload is captured exactly when \<open>0 < len < len(raw)\<close>, and a declared length equal
  to the number of bytes after the header falls inside the guard: the payload is then
  captured in full, not dropped.
\<close>

theorem exact_length_payload:
  assumes "HEADER_SIZE \<le> length raw" and "unpack_length raw = Inr len"
  shows "\<exists>m. decode raw = Inr m
           \<and> (get_data m \<noteq> None \<longleftrightarrow> 0 < len \<and> len < int (length raw))
           \<and> (0 < len \<and> len = int (length raw) - int HEADER_SIZE
                \<longrightarrow> get_data m = Some (drop HEADER_SIZE raw))"
proof -
  from assms(1) obtain c1 c2 l1 l2 d where raw: "raw = c1 # c2 # l1 # l2 # d"
    by (rule header_split)
  from assms(2) have len: "len = uint l1 * 256 + uint l2"
    by (simp add: raw unpack_length_header)
  show ?thesis
    unfolding raw decode_header len [symmetric]
    by (auto simp: unpack_data_def slice_def HEADER_SIZE_def CODE_SIZE_def LENGTH_SIZE_def)
qed

theorem exact_length_payload_witness:
  "HEADER_SIZE \<le> length [0, 100, 0, 3, 66, 111, 98 :: byte]
   \<and> unpack_length [0, 100, 0, 3, 66, 111, 98] = Inr 3
   \<and> (0::int) < 3 \<and> 3 = int (length [0, 100, 0, 3, 66, 111, 98 :: byte]) - int HEADER_SIZE
   \<and> (\<exists>m. decode [0, 100, 0, 3, 66, 111, 98] = Inr m \<and> get_data m = Some [66, 111, 98])"
proof -
  let ?raw = "[0, 100, 0, 3, 66, 111, 98 :: byte]"
  have h1: "HEADER_SIZE \<le> length ?raw"
    by (simp add: HEADER_SIZE_def CODE_SIZE_def LENGTH_SIZE_def)
  have h2: "unpack_length ?raw = Inr 3"
    by (simp add: unpack_length_header)
  have h3: "(0::int) < 3 \<and> 3 = int (length ?raw) - int HEADER_SIZE"
    by (simp add: HEADER_SIZE_def CODE_SIZE_def LENGTH_SIZE_def)
  have d: "drop HEADER_SIZE ?raw = [66, 111, 98]"
    by (simp add: HEADER_SIZE_def CODE_SIZE_def LENGTH_SIZE_def)
  obtain m where m: "decode ?raw = Inr m"
    and imp: "0 < (3::int) \<and> 3 = int (length ?raw) - int HEADER_SIZE
                \<longrightarrow> get_data m = Some (drop HEADER_SIZE ?raw)"
    using exact_length_payload [OF h1 h2] by (elim exE conjE)
  from imp h3 have "get_data m = Some (drop HEADER_SIZE ?raw)" by (rule mp)
  then have "get_data m = Some [66, 111, 98]" by (simp only: d)
  with m have ex: "\<exists>m. decode ?raw = Inr m \<and> get_data m = Some [66, 111, 98]"
    by (intro exI conjI)
  from h1 h2 h3 ex show ?thesis by (intro conjI) (elim conjE, assumption)+
qed

text \<open>
  The claim as the specification words it fails: in the five-byte frame below the
  declared length is 1, which is the number of bytes after the header, and the payload
  is captured.
\<close>

theorem exact_length_payload_counterexample:
  "HEADER_SIZE \<le> length [0, 1, 0, 1, 65 :: byte]
   \<and> unpack_length [0, 1, 0, 1, 65] = Inr (int (length [0, 1, 0, 1, 65 :: byte]) - 4)
   \<and> decode [0, 1, 0, 1, 65] = Inr (Message 1 (Some [65]))"
  by (simp add: decode_header unpack_length_header unpack_data_def slice_def HEADER_SIZE_def
      CODE_SIZE_def LENGTH_SIZE_def)

subsection \<open>Packing a message without data\<close>

text \<open>
  Claim C3, at the input where the code departs from it. \<open>pack_whoami()\<close> builds
  \<open>Message(CODE_WHOAMI, None)\<close> and packs it; \<open>pack\<close> adds \<open>None\<close> to the header
  bytes, which raises \<open>TypeError\<close>, so no four-byte frame is produced.
\<close>

theorem pack_whoami_raises: "pack_whoami = Inl TypeError"
  by (simp add: pack_whoami_def pack_def pack_header_def pack_code_def pack_length_def
      get_length_def struct_pack_H_def CODE_WHOAMI_def EMPTY_LENGTH_def)

text \<open>The same holds for the other utility that passes \<open>None\<close>.\<close>

lemma pack_motd_req_raises: "pack_motd_req = Inl TypeError"
  by (simp add: pack_motd_req_def pack_def pack_header_def pack_code_def pack_length_def
      get_length_def struct_pack_H_def CODE_MOTD_REQUEST_def EMPTY_LENGTH_def)

text \<open>
  With data present the frame is the header followed by the data, and the length field
  is zero for the empty byte string.
\<close>

lemma pack_empty:
  assumes "0 \<le> c" "c \<le> 65535"
  shows "pack (Message c (Some [])) = Inr [word_of_int (c div 256), word_of_int (c mod 256), 0, 0]"
  using pack_present [OF assms, of "[]"] by simp

subsection \<open>Totality of \<open>decode\<close> past the header check\<close>

text \<open>
  Claim C10. For every byte string of at least four bytes \<open>decode\<close> returns a message,
  whatever the code and the declared length are: both are values in \<open>0..65535\<close>, and the
  payload is either absent or the first \<open>len\<close> bytes after the header, cut short where
  the input ends. Its length is the smaller of \<open>len\<close> and the number of bytes present.
\<close>

theorem decode_total:
  assumes "HEADER_SIZE \<le> length raw"
  shows "\<exists>m len. decode raw = Inr m \<and> unpack_length raw = Inr len
           \<and> 0 \<le> get_code m \<and> get_code m \<le> 65535 \<and> 0 \<le> len \<and> len \<le> 65535
           \<and> get_data m = (if 0 < len \<and> len < int (length raw)
                            then Some (take (nat len) (drop HEADER_SIZE raw)) else None)
           \<and> (case get_data m of None \<Rightarrow> True
               | Some d \<Rightarrow> length d = min (nat len) (length raw - HEADER_SIZE))"
proof -
  from assms obtain c1 c2 l1 l2 d where raw: "raw = c1 # c2 # l1 # l2 # d"
    by (rule header_split)
  show ?thesis
    unfolding raw decode_header unpack_length_header
    using uint_pair_range [of c1 c2] uint_pair_range [of l1 l2]
    by (auto simp: unpack_data_def slice_def HEADER_SIZE_def CODE_SIZE_def LENGTH_SIZE_def)
qed

theorem decode_total_witness:
  "HEADER_SIZE \<le> length [255, 255, 0, 9, 65, 66 :: byte]
   \<and> decode [255, 255, 0, 9, 65, 66] = Inr (Message 65535 None)"
proof -
  have h: "HEADER_SIZE \<le> length [255, 255, 0, 9, 65, 66 :: byte]"
    by (simp add: HEADER_SIZE_def CODE_SIZE_def LENGTH_SIZE_def)
  have l: "unpack_length [255, 255, 0, 9, 65, 66] = Inr 9"
    by (simp add: unpack_length_header)
  have c: "unpack_code [255, 255, 0, 9, 65, 66] = Inr 65535"
    by (simp add: unpack_code_def slice_def struct_unpack_H_def CODE_SIZE_def)
  from decode_total [OF h] l obtain m where
    m: "decode [255, 255, 0, 9, 65, 66] = Inr m" "get_data m = None"
    by auto
  from m(1) c l have "get_code m = 65535"
    by (auto simp: decode_def)
  with m have "decode [255, 255, 0, 9, 65, 66] = Inr (Message 65535 None)"
    by (cases m) simp
  with h show ?thesis by simp
qed

section \<open>Properties of the server\<close>

subsection \<open>Username validation\<close>

lemma re_search_whitespace_iff:
  "re_search_whitespace s = None \<longleftrightarrow> (\<forall>c\<in>set s. \<not> whitespace c)"
  by (auto simp: re_search_whitespace_def find_None_iff)

text \<open>
  Claim C4, as the code has it. The four rules are applied in this order and the first
  one that fails decides: the name is empty; it has more than twelve characters; its
  first character is not a letter; it holds a whitespace character. Every error text
  begins with \<open>user names\<close>. For the second, third and fourth rule the text is that
  prefix followed by \<open>cannot contain more than twelve characters.\<close>,
  \<open>must begin with alphanumeric characters.\<close> and \<open>cannot contain whitespace.\<close>;
  for the first rule an error with the same prefix is returned. A name that passes all
  four gives \<open>None\<close>. The five names of the table behave accordingly.
\<close>

theorem validate_username_rules:
  "(length u = 0 \<longrightarrow>
      (\<exists>e. validate_username L u = Some e \<and> take 11 e = lit ''user names ''))
   \<and> (12 < length u \<longrightarrow>
      validate_username L u
        = Some (lit ''user names cannot contain more than twelve characters.''))
   \<and> (1 \<le> length u \<and> length u \<le> 12 \<and> \<not> isalpha L (u ! 0) \<longrightarrow>
      validate_username L u
        = Some (lit ''user names must begin with alphanumeric characters.''))
   \<and> (1 \<le> length u \<and> length u \<le> 12 \<and> isalpha L (u ! 0) \<and> (\<exists>c\<in>set u. whitespace c) \<longrightarrow>
      validate_username L u = Some (lit ''user names cannot contain whitespace.''))
   \<and> (1 \<le> length u \<and> length u \<le> 12 \<and> isalpha L (u ! 0) \<and> (\<forall>c\<in>set u. \<not> whitespace c) \<longrightarrow>
      validate_username L u = None)
   \<and> (\<exists>e. validate_username L (lit []) = Some e \<and> take 11 e = lit ''user names '')
   \<and> validate_username L (lit (replicate 13 CHR ''a''))
        = Some (lit ''user names cannot contain more than twelve characters.'')
   \<and> validate_username L (lit ''1abc'')
        = Some (lit ''user names must begin with alphanumeric characters.'')
   \<and> validate_username L (lit ''ab cd'')
        = Some (lit ''user names cannot contain whitespace.'')
   \<and> validate_username L (lit ''Alice'') = None"
proof (intro conjI impI)
  show "\<exists>e. validate_username L (lit []) = Some e \<and> take 11 e = lit ''user names ''"
    by (simp add: validate_username_def lit_def)
  show "validate_username L (lit (replicate 13 CHR ''a''))
        = Some (lit ''user names cannot contain more than twelve characters.'')"
    by (simp add: validate_username_def lit_def)
  show "validate_username L (lit ''1abc'')
        = Some (lit ''user names must begin with alphanumeric characters.'')"
    by (simp add: validate_username_def lit_def isalpha_def)
  show "validate_username L (lit ''ab cd'')
        = Some (lit ''user names cannot contain whitespace.'')"
    by (simp add: validate_username_def lit_def isalpha_def re_search_whitespace_def whitespace_def)
  show "validate_username L (lit ''Alice'') = None"
    by (simp add: validate_username_def lit_def isalpha_def re_search_whitespace_def whitespace_def)
  show "\<exists>e. validate_username L u = Some e \<and> take 11 e = lit ''user names ''"
    if "length u = 0"
    using that by (simp add: validate_username_def lit_def)
qed (auto simp: validate_username_def re_search_whitespace_iff)

theorem validate_username_rules_witness:
  "(\<exists>e. validate_username (\<lambda>_. False) [] = Some e \<and> take 11 e = lit ''user names '')
   \<and> validate_username (\<lambda>_. False) (replicate 13 97)
        = Some (lit ''user names cannot contain more than twelve characters.'')
   \<and> validate_username (\<lambda>_. False) [49, 97, 98, 99]
        = Some (lit ''user names must begin with alphanumeric characters.'')
   \<and> validate_username (\<lambda>_. False) [97, 98, 32, 99, 100]
        = Some (lit ''user names cannot contain whitespace.'')
   \<and> validate_username (\<lambda>_. False) [65, 108, 105, 99, 101] = None"
proof (intro conjI)
  show "\<exists>e. validate_username (\<lambda>_. False) [] = Some e \<and> take 11 e = lit ''user names ''"
    using validate_username_rules [of "[]" "\<lambda>_. False"] by simp
  show "validate_username (\<lambda>_. False) (replicate 13 97)
        = Some (lit ''user names cannot contain more than twelve characters.'')"
    using validate_username_rules [of "replicate 13 97" "\<lambda>_. False"] by simp
  have "\<not> isalpha (\<lambda>_. False) ([49, 97, 98, 99] ! 0)" by (simp add: isalpha_def)
  then show "validate_username (\<lambda>_. False) [49, 97, 98, 99]
        = Some (lit ''user names must begin with alphanumeric characters.'')"
    using validate_username_rules [of "[49, 97, 98, 99]" "\<lambda>_. False"] by simp
  have "isalpha (\<lambda>_. False) ([97, 98, 32, 99, 100] ! 0)" "whitespace 32"
    by (simp_all add: isalpha_def whitespace_def)
  then show "validate_username (\<lambda>_. False) [97, 98, 32, 99, 100]
        = Some (lit ''user names cannot contain whitespace.'')"
    using validate_username_rules [of "[97, 98, 32, 99, 100]" "\<lambda>_. False"] by simp
  have "isalpha (\<lambda>_. False) ([65, 108, 105, 99, 101] ! 0)"
    "\<forall>c\<in>set [65, 108, 105, 99, 101]. \<not> whitespace c"
    by (simp_all add: isalpha_def whitespace_def)
  then show "validate_username (\<lambda>_. False) [65, 108, 105, 99, 101] = None"
    using validate_username_rules [of "[65, 108, 105, 99, 101]" "\<lambda>_. False"] by simp
qed

text \<open>
  The text returned is not exactly the one that the specification lists: for the name
  \<open>1abc\<close> the third rule answers with the listed text behind the prefix
  \<open>user names\<close>.
\<close>

theorem validate_username_text_counterexample:
  "validate_username (\<lambda>_. False) (lit ''1abc'')
     = Some (lit ''user names must begin with alphanumeric characters.'')
   \<and> validate_username (\<lambda>_. False) (lit ''1abc'')
       \<noteq> Some (lit ''must begin with alphanumeric characters.'')"
  by (simp add: validate_username_def lit_def isalpha_def)

subsection \<open>Removal from the registry\<close>

text \<open>
  Claim C7, as the code has it. \<open>connection_lost\<close> closes the transport and then calls
  \<open>list.remove\<close> and \<open>dict.pop\<close>, neither of them guarded. For a session whose
  transport is not in the list (already removed, or never added) it fails with
  \<open>ValueError\<close> and leaves the list and the dictionary as they were; for a session
  that is registered it succeeds and removes the transport from both.
\<close>

theorem connection_lost_registry:
  assumes "transport p = Some t"
  shows "(t \<notin> set (connections w) \<longrightarrow>
            fst (connection_lost p w) = Some ValueError
            \<and> connections (snd (connection_lost p w)) = connections w
            \<and> connection_states (snd (connection_lost p w)) = connection_states w)
         \<and> (t \<in> set (connections w) \<and> connection_states w t \<noteq> None \<longrightarrow>
            fst (connection_lost p w) = None
            \<and> connections (snd (connection_lost p w)) = remove1 t (connections w)
            \<and> connection_states (snd (connection_lost p w)) = (connection_states w)(t := None))"
  using assms by (auto simp: connection_lost_def Let_def)

lemma one_connection_eq:
  "one_connection =
     (\<lparr>user = None, transport = Some 0\<rparr>,
      \<lparr>connections = [0], connection_states = [0 \<mapsto> STATE_CONNECTED], written = [],
       closed = [], broken = {}\<rparr>)"
  by (simp add: one_connection_def connection_made_def initialize_connection_def
      CluckServer_init_def startup_def)

theorem connection_lost_registry_witness:
  "transport (fst one_connection) = Some 0
   \<and> 0 \<in> set (connections (snd one_connection))
   \<and> connection_states (snd one_connection) 0 \<noteq> None
   \<and> fst (connection_lost (fst one_connection) (snd one_connection)) = None
   \<and> connections (snd (connection_lost (fst one_connection) (snd one_connection))) = []
   \<and> transport \<lparr>user = None, transport = Some 7\<rparr> = Some 7
   \<and> 7 \<notin> set (connections (snd one_connection))
   \<and> fst (connection_lost \<lparr>user = None, transport = Some 7\<rparr> (snd one_connection))
       = Some ValueError
   \<and> connections (snd (connection_lost \<lparr>user = None, transport = Some 7\<rparr>
                           (snd one_connection))) = [0]"
proof -
  have h: "transport (fst one_connection) = Some 0"
    by (simp add: one_connection_eq)
  have g: "0 \<in> set (connections (snd one_connection))
     \<and> connection_states (snd one_connection) 0 \<noteq> None"
    by (simp add: one_connection_eq)
  have r: "remove1 0 (connections (snd one_connection)) = []"
    by (simp add: one_connection_eq)
  from connection_lost_registry [OF h, of "snd one_connection"] g r
  have a: "fst (connection_lost (fst one_connection) (snd one_connection)) = None
   \<and> connections (snd (connection_lost (fst one_connection) (snd one_connection))) = []"
    by simp
  have h': "transport \<lparr>user = None, transport = Some 7\<rparr> = Some 7" by simp
  have g': "7 \<notin> set (connections (snd one_connection))"
    and c: "connections (snd one_connection) = [0]"
    by (simp_all add: one_connection_eq)
  from connection_lost_registry [OF h', of "snd one_connection"] g' c
  have b: "fst (connection_lost \<lparr>user = None, transport = Some 7\<rparr> (snd one_connection))
       = Some ValueError
   \<and> connections (snd (connection_lost \<lparr>user = None, transport = Some 7\<rparr>
                           (snd one_connection))) = [0]"
    by simp
  from h g a h' g' b show ?thesis by simp
qed

text \<open>
  Removing the same session twice: the first removal succeeds, the second one raises.
\<close>

theorem double_removal_counterexample:
  "fst (connection_lost (fst one_connection) (snd one_connection)) = None
   \<and> fst (connection_lost (fst one_connection)
            (snd (connection_lost (fst one_connection) (snd one_connection))))
       = Some ValueError"
  by (simp add: one_connection_eq connection_lost_def Let_def)

text \<open>A session that was never added: the removal raises as well.\<close>

lemma never_added_removal:
  "fst (connection_lost \<lparr>user = None, transport = Some 7\<rparr> (snd one_connection)) = Some ValueError"
  by (simp add: one_connection_eq connection_lost_def Let_def)

subsection \<open>Broadcast\<close>

lemma broadcast_loop_eq:
  assumes "set ts \<subseteq> dom (connection_states w)"
  shows "broadcast_loop w frame ts =
     (if takeWhile (\<lambda>t. t \<notin> broken w) (filter (\<lambda>t. connection_states w t = Some STATE_READY) ts)
           = filter (\<lambda>t. connection_states w t = Some STATE_READY) ts
      then None else Some OSError,
      w\<lparr>written := written w @ map (\<lambda>t. (t, frame))
          (takeWhile (\<lambda>t. t \<notin> broken w)
             (filter (\<lambda>t. connection_states w t = Some STATE_READY) ts))\<rparr>)"
  using assms
proof (induction ts arbitrary: w)
  case Nil
  then show ?case by simp
next
  case (Cons t ts)
  from Cons.prems obtain s where s: "connection_states w t = Some s" by auto
  show ?case
  proof (cases "s = STATE_READY")
    case False
    with s Cons show ?thesis by simp
  next
    case True
    show ?thesis
    proof (cases "t \<in> broken w")
      case True
      with s \<open>s = STATE_READY\<close> show ?thesis by (simp add: send_to_def)
    next
      case False
      let ?w = "w\<lparr>written := written w @ [(t, frame)]\<rparr>"
      have "set ts \<subseteq> dom (connection_states ?w)" using Cons.prems by simp
      from Cons.IH [OF this] s \<open>s = STATE_READY\<close> False
      show ?thesis by (simp add: send_to_def)
    qed
  qed
qed

text \<open>
  Claim C6, as the code has it. In a registry where every listed transport has a state,
  \<open>broadcast\<close> goes through the list in order, skips every session that is not
  \<open>STATE_READY\<close>, and writes the frame to the ready ones up to the first whose write
  fails. If no ready session fails, exactly the ready sessions receive the frame and the
  call returns normally. If one fails, the exception reaches the caller and the ready
  sessions after it receive nothing.
\<close>

theorem broadcast_delivery:
  assumes "set (connections w) \<subseteq> dom (connection_states w)"
  shows "broadcast w frame =
     (if \<forall>t\<in>set (connections w). connection_states w t = Some STATE_READY \<longrightarrow> t \<notin> broken w
      then None else Some OSError,
      w\<lparr>written := written w @ map (\<lambda>t. (t, frame))
          (takeWhile (\<lambda>t. t \<notin> broken w)
             (filter (\<lambda>t. connection_states w t = Some STATE_READY) (connections w)))\<rparr>)"
proof -
  have "(takeWhile (\<lambda>t. t \<notin> broken w)
           (filter (\<lambda>t. connection_states w t = Some STATE_READY) (connections w))
         = filter (\<lambda>t. connection_states w t = Some STATE_READY) (connections w))
        \<longleftrightarrow> (\<forall>t\<in>set (connections w). connection_states w t = Some STATE_READY \<longrightarrow> t \<notin> broken w)"
    by (auto simp: takeWhile_eq_all_conv)
  then show ?thesis
    unfolding broadcast_def broadcast_loop_eq [OF assms] by simp
qed

theorem broadcast_delivery_witness:
  "set (connections \<lparr>connections = [0, 1, 2],
          connection_states = [0 \<mapsto> STATE_READY, 1 \<mapsto> STATE_CONNECTED, 2 \<mapsto> STATE_READY],
          written = [], closed = [], broken = {}\<rparr>)
     \<subseteq> dom (connection_states \<lparr>connections = [0, 1, 2],
          connection_states = [0 \<mapsto> STATE_READY, 1 \<mapsto> STATE_CONNECTED, 2 \<mapsto> STATE_READY],
          written = [], closed = [], broken = {}\<rparr>)
   \<and> broadcast \<lparr>connections = [0, 1, 2],
          connection_states = [0 \<mapsto> STATE_READY, 1 \<mapsto> STATE_CONNECTED, 2 \<mapsto> STATE_READY],
          written = [], closed = [], broken = {}\<rparr> [0, 1, 0, 0]
     = (None, \<lparr>connections = [0, 1, 2],
          connection_states = [0 \<mapsto> STATE_READY, 1 \<mapsto> STATE_CONNECTED, 2 \<mapsto> STATE_READY],
          written = [(0, [0, 1, 0, 0]), (2, [0, 1, 0, 0])], closed = [], broken = {}\<rparr>)"
proof -
  let ?w = "\<lparr>connections = [0, 1, 2],
          connection_states = [0 \<mapsto> STATE_READY, 1 \<mapsto> STATE_CONNECTED, 2 \<mapsto> STATE_READY],
          written = [], closed = [], broken = {}\<rparr>"
  have h: "set (connections ?w) \<subseteq> dom (connection_states ?w)" by simp
  show ?thesis
    using h broadcast_delivery [OF h, of "[0, 1, 0, 0]"] by simp
qed

text \<open>
  Two ready sessions, the first with a failing write: the exception comes back to the
  caller and the second session, whose write would work, receives nothing.
\<close>

theorem broadcast_failure_counterexample:
  "broadcast \<lparr>connections = [0, 1],
          connection_states = [0 \<mapsto> STATE_READY, 1 \<mapsto> STATE_READY],
          written = [], closed = [], broken = {0}\<rparr> [0, 1, 0, 0]
     = (Some OSError, \<lparr>connections = [0, 1],
          connection_states = [0 \<mapsto> STATE_READY, 1 \<mapsto> STATE_READY],
          written = [], closed = [], broken = {0}\<rparr>)"
  by (simp add: broadcast_def send_to_def)

subsection \<open>WHOAMI before and after registration\<close>

lemma str_encode_ascii: "\<forall>c\<in>set s. c < 128 \<Longrightarrow> str_encode s = Inr (map of_nat s)"
  by (induction s) (simp_all add: encode_code_point_def)

lemma pack_text:
  assumes "\<forall>c\<in>set s. c < 128" and "length s \<le> 65535" and "0 \<le> k" "k \<le> 255"
  shows "(case str_encode s of Inl e \<Rightarrow> Inl e | Inr b \<Rightarrow> pack (Message k (Some b)))
         = Inr ([0, word_of_int k, word_of_int (int (length s) div 256),
                 word_of_int (int (length s) mod 256)] @ map of_nat s)"
proof -
  have "k div 256 = 0" "k mod 256 = k" using assms(3,4) by simp_all
  then show ?thesis
    using pack_present [of k "map of_nat s"] assms
    by (simp add: str_encode_ascii)
qed

lemma struct_unpack_H_length: "struct_unpack_H b = Inr n \<Longrightarrow> length b = 2"
  by (auto simp: struct_unpack_H_def split: list.splits)

lemma decode_Inr_length:
  assumes "decode raw = Inr m"
  shows "HEADER_SIZE \<le> length raw"
proof -
  from assms obtain n where "unpack_length raw = Inr n"
    by (auto simp: decode_def split: sum.splits)
  then have "length (slice raw CODE_SIZE (CODE_SIZE + LENGTH_SIZE)) = 2"
    unfolding unpack_length_def by (rule struct_unpack_H_length)
  then show ?thesis
    by (simp add: slice_def CODE_SIZE_def LENGTH_SIZE_def HEADER_SIZE_def)
qed

lemma no_user_text:
  "pack_cmd_error (lit ''user_status: host has no registered users.'')
     = Inr ([0, 11, 0, 42] @ bytes_lit ''user_status: host has no registered users.'')"
  unfolding pack_cmd_error_def CODE_COMMAND_ERROR_def bytes_lit_def
  by (subst pack_text) (simp_all add: lit_def)

lemma bob_status:
  "pack_user_status (lit ''Bob'') = Inr ([0, 101, 0, 3] @ bytes_lit ''Bob'')"
  unfolding pack_user_status_def CODE_USER_STATUS_def bytes_lit_def
  by (subst pack_text) (simp_all add: lit_def)

lemma bob_success:
  "pack_cmd_success (lit ''register_user_success: '' @ lit ''Bob'' @ lit '' confirmed.'')
     = Inr ([0, 10, 0, 37] @ bytes_lit ''register_user_success: Bob confirmed.'')"
  unfolding pack_cmd_success_def CODE_COMMAND_SUCCESS_def bytes_lit_def
  by (subst pack_text) (simp_all add: lit_def)

lemma dispatch_whoami: "protocol_paths X CODE_WHOAMI = Some handle_whoami_request"
  by (simp add: protocol_paths_def CODE_WHOAMI_def CODE_REGISTER_USER_def CODE_MOTD_REQUEST_def)

lemma dispatch_register: "protocol_paths X CODE_REGISTER_USER = Some (handle_register_user X)"
  by (simp add: protocol_paths_def CODE_WHOAMI_def CODE_REGISTER_USER_def CODE_MOTD_REQUEST_def)

lemma data_received_dispatch:
  assumes "transport p = Some t" and "decode raw = Inr m"
    and "protocol_paths X (get_code m) = Some h"
  shows "data_received X p w raw = (None, snd (h p w m))"
  using assms decode_Inr_length [OF assms(2)]
  by (simp add: data_received_def split: prod.splits)

lemma whoami_no_user:
  assumes "transport p = Some t" "t \<notin> broken w" "\<not> truthy (user p)"
  shows "handle_whoami_request p w m =
    (None, p, w\<lparr>written := written w
        @ [(t, [0, 11, 0, 42] @ bytes_lit ''user_status: host has no registered users.'')]\<rparr>)"
  using assms
  by (simp add: handle_whoami_request_def no_user_text send_packed_def send_def send_to_def)

lemma whoami_bob:
  assumes "transport p = Some t" "t \<notin> broken w" "user p = Some (lit ''Bob'')"
  shows "handle_whoami_request p w m =
    (None, p, w\<lparr>written := written w @ [(t, [0, 101, 0, 3] @ bytes_lit ''Bob'')]\<rparr>)"
proof -
  have "truthy (user p)" using assms(3) by (simp add: truthy_def lit_def)
  then show ?thesis
    using assms
    by (simp add: handle_whoami_request_def bob_status send_packed_def send_def send_to_def)
qed

lemma validate_bob: "validate_username L (lit ''Bob'') = None"
  by (simp add: validate_username_def lit_def isalpha_def re_search_whitespace_def whitespace_def)

lemma register_bob:
  assumes "transport p = Some t" "t \<notin> broken w"
  shows "handle_register_user X p w (Message c (Some (bytes_lit ''Bob''))) =
    (None, p\<lparr>user := Some (lit ''Bob'')\<rparr>,
     w\<lparr>written := written w
        @ [(t, [0, 10, 0, 37] @ bytes_lit ''register_user_success: Bob confirmed.'')]\<rparr>)"
proof -
  have d: "get_data_ascii (Message c (Some (bytes_lit ''Bob''))) = Inr (lit ''Bob'')"
    unfolding get_data_ascii_def bytes_lit_def
    by (simp add: lit_def prepend_def)
  have h: "has_data (Message c (Some (bytes_lit ''Bob'')))"
    by (simp add: has_data_def bytes_lit_def lit_def)
  show ?thesis
    using assms
    by (simp add: handle_register_user_def d h validate_bob truthy_def bob_success
        send_packed_def send_def send_to_def)
qed

text \<open>
  Claim C5. Take a session bound to a transport whose write works, with no username,
  any frame \<open>who\<close> that decodes to a WHOAMI message, and any frame \<open>reg\<close> that decodes
  to REGISTER\_USER with payload \<open>Bob\<close>. Then \<open>who\<close> is answered with one
  COMMAND\_ERROR frame whose text says that the host has no registered users; \<open>reg\<close>
  stores the name \<open>Bob\<close> and is answered with COMMAND\_SUCCESS; and \<open>who\<close> sent after
  that is answered with one USER\_STATUS frame whose data is \<open>Bob\<close>.
\<close>

theorem whoami_before_and_after_register:
  assumes "transport p = Some t" and "t \<notin> broken w" and "user p = None"
    and "decode who = Inr m" and "get_code m = CODE_WHOAMI"
    and "decode reg = Inr (Message CODE_REGISTER_USER (Some (bytes_lit ''Bob'')))"
  shows "data_received X p w who =
           (None, p, w\<lparr>written := written w
              @ [(t, [0, 11, 0, 42] @ bytes_lit ''user_status: host has no registered users.'')]\<rparr>)
         \<and> (\<exists>p' w'. data_received X p w reg = (None, p', w')
              \<and> user p' = Some (lit ''Bob'')
              \<and> written w' = written w
                  @ [(t, [0, 10, 0, 37] @ bytes_lit ''register_user_success: Bob confirmed.'')]
              \<and> data_received X p' w' who =
                  (None, p', w'\<lparr>written := written w' @ [(t, [0, 101, 0, 3] @ bytes_lit ''Bob'')]\<rparr>))"
proof (intro conjI)
  have nt: "\<not> truthy (user p)" using assms(3) by (simp add: truthy_def)
  have dw: "protocol_paths X (get_code m) = Some handle_whoami_request"
    using assms(5) by (simp add: dispatch_whoami)
  show "data_received X p w who =
           (None, p, w\<lparr>written := written w
              @ [(t, [0, 11, 0, 42] @ bytes_lit ''user_status: host has no registered users.'')]\<rparr>)"
    using data_received_dispatch [OF assms(1) assms(4) dw, of w]
      whoami_no_user [OF assms(1) assms(2) nt, of m]
    by simp
  let ?p = "p\<lparr>user := Some (lit ''Bob'')\<rparr>"
  let ?w = "w\<lparr>written := written w
        @ [(t, [0, 10, 0, 37] @ bytes_lit ''register_user_success: Bob confirmed.'')]\<rparr>"
  have dr: "protocol_paths X (get_code (Message CODE_REGISTER_USER (Some (bytes_lit ''Bob''))))
              = Some (handle_register_user X)"
    by (simp add: dispatch_register)
  have r: "data_received X p w reg = (None, ?p, ?w)"
    using data_received_dispatch [OF assms(1) assms(6) dr, of w]
      register_bob [OF assms(1) assms(2), of X CODE_REGISTER_USER]
    by simp
  have t': "transport ?p = Some t" "t \<notin> broken ?w" "user ?p = Some (lit ''Bob'')"
    using assms(1,2) by simp_all
  have a: "data_received X ?p ?w who =
      (None, ?p, ?w\<lparr>written := written ?w @ [(t, [0, 101, 0, 3] @ bytes_lit ''Bob'')]\<rparr>)"
    using data_received_dispatch [OF t'(1) assms(4) dw, of ?w]
      whoami_bob [OF t', of m]
    by simp
  show "\<exists>p' w'. data_received X p w reg = (None, p', w')
              \<and> user p' = Some (lit ''Bob'')
              \<and> written w' = written w
                  @ [(t, [0, 10, 0, 37] @ bytes_lit ''register_user_success: Bob confirmed.'')]
              \<and> data_received X p' w' who =
                  (None, p', w'\<lparr>written := written w' @ [(t, [0, 101, 0, 3] @ bytes_lit ''Bob'')]\<rparr>)"
    using r a by (intro exI [of _ ?p] exI [of _ ?w]) simp
qed

lemma decode_whoami_frame: "decode [0, 110, 0, 0] = Inr (Message CODE_WHOAMI None)"
  by (simp add: decode_header unpack_data_def CODE_WHOAMI_def)

lemma decode_register_bob:
  "decode [0, 100, 0, 3, 66, 111, 98]
     = Inr (Message CODE_REGISTER_USER (Some (bytes_lit ''Bob'')))"
  by (simp add: decode_header unpack_data_def slice_def HEADER_SIZE_def CODE_SIZE_def
      LENGTH_SIZE_def CODE_REGISTER_USER_def bytes_lit_def lit_def)

theorem whoami_before_and_after_register_witness:
  "transport (fst one_connection) = Some 0
   \<and> 0 \<notin> broken (snd one_connection)
   \<and> user (fst one_connection) = None
   \<and> decode [0, 110, 0, 0] = Inr (Message CODE_WHOAMI None)
   \<and> decode [0, 100, 0, 3, 66, 111, 98]
       = Inr (Message CODE_REGISTER_USER (Some (bytes_lit ''Bob'')))
   \<and> data_received sample_externals (fst one_connection) (snd one_connection) [0, 110, 0, 0]
       = (None, fst one_connection,
          (snd one_connection)\<lparr>written :=
             [(0, [0, 11, 0, 42] @ bytes_lit ''user_status: host has no registered users.'')]\<rparr>)"
proof -
  have h1: "transport (fst one_connection) = Some 0"
    and h2: "0 \<notin> broken (snd one_connection)"
    and h3: "user (fst one_connection) = None"
    and w: "written (snd one_connection) = []"
    by (simp_all add: one_connection_eq)
  have h5: "get_code (Message CODE_WHOAMI None) = CODE_WHOAMI" by simp
  from whoami_before_and_after_register
         [OF h1 h2 h3 decode_whoami_frame h5 decode_register_bob, of sample_externals]
  have "data_received sample_externals (fst one_connection) (snd one_connection) [0, 110, 0, 0]
       = (None, fst one_connection,
          (snd one_connection)\<lparr>written :=
             [(0, [0, 11, 0, 42] @ bytes_lit ''user_status: host has no registered users.'')]\<rparr>)"
    by (simp only: w append_Nil)
  with h1 h2 h3 decode_whoami_frame decode_register_bob show ?thesis
    by (intro conjI)
qed

subsection \<open>Registration with a name that is not ASCII\<close>

text \<open>
  Claim C8, at an input where the code departs from it. The payload \<open>61 C3 A9\<close> is
  not ASCII; it is the UTF-8 encoding of the two characters \<open>a\<close> and U+00E9.
  \<open>get_data_ascii\<close> decodes with Python's default codec, which is UTF-8, so nothing
  is raised: the name passes validation, it is stored as the session's user, and a
  COMMAND\_SUCCESS frame is written to the peer.
\<close>

theorem register_utf8_name_accepted:
  "data_received sample_externals (fst one_connection) (snd one_connection)
       [0, 100, 0, 3, 0x61, 0xC3, 0xA9]
     = (None, (fst one_connection)\<lparr>user := Some [0x61, 0xE9]\<rparr>,
        (snd one_connection)\<lparr>written :=
           [(0, [0, 10, 0, 37] @ bytes_lit ''register_user_success: a'' @ [0xC3, 0xA9]
                 @ bytes_lit '' confirmed.'')]\<rparr>)"
proof -
  let ?raw = "[0, 100, 0, 3, 0x61, 0xC3, 0xA9] :: bytes"
  let ?m = "Message CODE_REGISTER_USER (Some [0x61, 0xC3, 0xA9])"
  have d: "decode ?raw = Inr ?m"
    by (simp add: decode_header unpack_data_def slice_def HEADER_SIZE_def CODE_SIZE_def
        LENGTH_SIZE_def CODE_REGISTER_USER_def)
  have a: "get_data_ascii ?m = Inr [0x61, 0xE9]"
    by (simp add: get_data_ascii_def continuation_def prepend_def)
  have v: "validate_username (unicode_letter sample_externals) [0x61, 0xE9] = None"
    by (simp add: validate_username_def isalpha_def re_search_whitespace_def whitespace_def)
  have e: "str_encode (lit ''register_user_success: '' @ 0x61 # 0xE9 # lit '' confirmed.'')
      = Inr (bytes_lit ''register_user_success: a'' @ [0xC3, 0xA9] @ bytes_lit '' confirmed.'')"
    by (simp add: lit_def bytes_lit_def encode_code_point_def)
  have p: "pack_cmd_success (lit ''register_user_success: '' @ 0x61 # 0xE9 # lit '' confirmed.'')
      = Inr ([0, 10, 0, 37] @ bytes_lit ''register_user_success: a'' @ [0xC3, 0xA9]
                 @ bytes_lit '' confirmed.'')"
    unfolding pack_cmd_success_def e CODE_COMMAND_SUCCESS_def
    using pack_present [of 10 "bytes_lit ''register_user_success: a'' @ [0xC3, 0xA9]
                 @ bytes_lit '' confirmed.''"]
    by (simp add: bytes_lit_def lit_def)
  have h: "handle_register_user sample_externals (fst one_connection) (snd one_connection) ?m
     = (None, (fst one_connection)\<lparr>user := Some [0x61, 0xE9]\<rparr>,
        (snd one_connection)\<lparr>written :=
           [(0, [0, 10, 0, 37] @ bytes_lit ''register_user_success: a'' @ [0xC3, 0xA9]
                 @ bytes_lit '' confirmed.'')]\<rparr>)"
    by (simp add: handle_register_user_def has_data_def a v truthy_def p send_packed_def
        send_def send_to_def one_connection_eq)
  have t: "transport (fst one_connection) = Some 0" by (simp add: one_connection_eq)
  have dr: "protocol_paths sample_externals (get_code ?m) = Some (handle_register_user sample_externals)"
    by (simp add: dispatch_register)
  show ?thesis
    using data_received_dispatch [OF t d dr, of "snd one_connection"] h by simp
qed

text \<open>
  What the claim describes does happen when the payload is not valid UTF-8: the
  exception is caught in \<open>data_received\<close>, nothing is written, and the session and
  the registry stay as they were.
\<close>

lemma register_undecodable_silent:
  assumes "transport p = Some t" and "decode raw = Inr m"
    and "get_code m = CODE_REGISTER_USER" and "get_data m = Some d" and "d \<noteq> []"
    and "bytes_decode d = Inl e"
  shows "data_received X p w raw = (None, p, w)"
proof -
  have dr: "protocol_paths X (get_code m) = Some (handle_register_user X)"
    using assms(3) by (simp add: dispatch_register)
  have "handle_register_user X p w m = (Some e, p, w)"
    using assms(4-6) by (simp add: handle_register_user_def has_data_def get_data_ascii_def)
  with data_received_dispatch [OF assms(1,2) dr, of w] show ?thesis by simp
qed

lemma register_invalid_utf8_example:
  "data_received sample_externals (fst one_connection) (snd one_connection) [0, 100, 0, 1, 0xFF]
     = (None, fst one_connection, snd one_connection)"
proof -
  have d: "decode [0, 100, 0, 1, 0xFF] = Inr (Message CODE_REGISTER_USER (Some [0xFF]))"
    by (simp add: decode_header unpack_data_def slice_def HEADER_SIZE_def CODE_SIZE_def
        LENGTH_SIZE_def CODE_REGISTER_USER_def)
  have t: "transport (fst one_connection) = Some 0" by (simp add: one_connection_eq)
  show ?thesis
    by (rule register_undecodable_silent [OF t d, of "[0xFF]" UnicodeDecodeError]) simp_all
qed

subsection \<open>No handler changes a connection state\<close>

lemma send_packed_registry:
  assumes "send_packed p w r = (e, p', w')"
  shows "p' = p \<and> connections w' = connections w
         \<and> connection_states w' = connection_states w \<and> broken w' = broken w
         \<and> closed w' = closed w"
  using assms
  by (auto simp: send_packed_def send_def send_to_def
      split: sum.splits option.splits prod.splits if_splits)

lemma handle_whoami_registry:
  assumes "handle_whoami_request p w m = (e, p', w')"
  shows "transport p' = transport p \<and> connections w' = connections w
         \<and> connection_states w' = connection_states w \<and> broken w' = broken w"
  using assms send_packed_registry
  by (fastforce simp: handle_whoami_request_def split: if_splits)

lemma handle_motd_registry:
  assumes "handle_motd_request X p w m = (e, p', w')"
  shows "transport p' = transport p \<and> connections w' = connections w
         \<and> connection_states w' = connection_states w \<and> broken w' = broken w"
  using assms send_packed_registry
  by (fastforce simp: handle_motd_request_def split: sum.splits)

lemma handle_register_registry:
  assumes "handle_register_user X p w m = (e, p', w')"
  shows "transport p' = transport p \<and> connections w' = connections w
         \<and> connection_states w' = connection_states w \<and> broken w' = broken w"
proof (cases "if has_data m then get_data_ascii m else Inr []")
  case (Inl a)
  with assms show ?thesis by (simp add: handle_register_user_def)
next
  case (Inr u)
  show ?thesis
  proof (cases "truthy (validate_username (unicode_letter X) u)")
    case True
    with Inr assms show ?thesis
      by (auto simp: handle_register_user_def Let_def dest!: send_packed_registry)
  next
    case False
    with Inr assms show ?thesis
      by (auto simp: handle_register_user_def Let_def dest!: send_packed_registry)
  qed
qed

lemma protocol_paths_cases:
  assumes "protocol_paths X c = Some h"
  shows "h = handle_motd_request X \<or> h = handle_register_user X \<or> h = handle_whoami_request"
  using assms by (auto simp: protocol_paths_def split: if_splits)

lemma data_received_registry:
  assumes "data_received X p w raw = (e, p', w')"
  shows "transport p' = transport p \<and> connections w' = connections w
         \<and> connection_states w' = connection_states w \<and> broken w' = broken w"
proof (cases "transport p")
  case None
  with assms show ?thesis by (simp add: data_received_def)
next
  case (Some t)
  show ?thesis
  proof (cases "length raw < HEADER_SIZE")
    case True
    with Some assms show ?thesis
      by (auto simp: data_received_def split: prod.splits dest!: send_packed_registry)
  next
    case False
    show ?thesis
    proof (cases "decode raw")
      case (Inl a)
      with Some False assms show ?thesis by (auto simp: data_received_def)
    next
      case (Inr m)
      show ?thesis
      proof (cases "protocol_paths X (get_code m)")
        case None
        with Some False Inr assms show ?thesis
          by (auto simp: data_received_def split: prod.splits dest!: send_packed_registry)
      next
        case (Some h)
        obtain e1 p1 w1 where h: "h p w m = (e1, p1, w1)" by (cases "h p w m") auto
        with \<open>transport p = Some t\<close> False Inr Some assms
        have eq: "p' = p1" "w' = w1" by (auto simp: data_received_def)
        from protocol_paths_cases [OF Some] consider
            "h = handle_motd_request X" | "h = handle_register_user X"
          | "h = handle_whoami_request" by blast
        then show ?thesis
        proof cases
          case 1
          with h show ?thesis unfolding eq by (simp add: handle_motd_registry)
        next
          case 2
          with h show ?thesis unfolding eq by (simp add: handle_register_registry)
        next
          case 3
          with h show ?thesis unfolding eq by (simp add: handle_whoami_registry)
        qed
      qed
    qed
  qed
qed

lemma consistent_startup: "consistent (startup B)"
  by (simp add: consistent_def startup_def)

lemma consistent_step:
  assumes "consistent s"
  shows "consistent (step X s ev) \<and> broken (shared (step X s ev)) = broken (shared s)"
proof (cases ev)
  case (Connection_made t)
  show ?thesis
  proof (cases "protocols s t")
    case None
    with assms have "t \<notin> set (connections (shared s))" by (auto simp: consistent_def)
    with None assms Connection_made show ?thesis
      by (auto simp: consistent_def connection_made_def initialize_connection_def
          CluckServer_init_def split: if_splits)
  next
    case (Some p)
    with assms Connection_made show ?thesis by simp
  qed
next
  case (Data_received t raw)
  show ?thesis
  proof (cases "protocols s t")
    case None
    with assms Data_received show ?thesis by simp
  next
    case (Some p)
    obtain e p' w' where r: "data_received X p (shared s) raw = (e, p', w')"
      by (cases "data_received X p (shared s) raw") auto
    from data_received_registry [OF r] assms Some have
      "transport p' = Some t" "connections w' = connections (shared s)"
      "connection_states w' = connection_states (shared s)" "broken w' = broken (shared s)"
      by (auto simp: consistent_def)
    with assms Some r Data_received show ?thesis
      by (auto simp: consistent_def)
  qed
next
  case (Connection_lost t)
  show ?thesis
  proof (cases "protocols s t")
    case None
    with assms Connection_lost show ?thesis by simp
  next
    case (Some p)
    with assms have tp: "transport p = Some t" and mem: "t \<in> set (connections (shared s))"
      and st: "connection_states (shared s) t \<noteq> None"
      by (auto simp: consistent_def)
    then have cl: "connection_lost p (shared s) =
       (None, (shared s)\<lparr>closed := closed (shared s) @ [t],
                        connections := remove1 t (connections (shared s)),
                        connection_states := (connection_states (shared s))(t := None)\<rparr>)"
      by (auto simp: connection_lost_def Let_def)
    have "step X s ev =
        s\<lparr>shared := (shared s)\<lparr>closed := closed (shared s) @ [t],
                        connections := remove1 t (connections (shared s)),
                        connection_states := (connection_states (shared s))(t := None)\<rparr>,
          protocols := (protocols s)(t := None)\<rparr>"
      by (simp add: Connection_lost Some cl)
    with assms show ?thesis
      by (auto simp: consistent_def split: if_splits)
  qed
qed

lemma run_snoc: "run X s (evs @ [ev]) = step X (run X s evs) ev"
  by (simp add: run_def)

lemma consistent_run:
  "consistent (run X (startup B) evs) \<and> broken (shared (run X (startup B) evs)) = B"
proof (induction evs rule: rev_induct)
  case Nil
  show ?case by (simp add: run_def consistent_startup) (simp add: startup_def)
next
  case (snoc ev evs)
  with consistent_step [of "run X (startup B) evs" X ev] show ?case
    by (simp add: run_snoc)
qed

lemma step_data_received_registry:
  "connections (shared (step X s (Data_received t raw))) = connections (shared s)
   \<and> connection_states (shared (step X s (Data_received t raw))) = connection_states (shared s)"
proof (cases "protocols s t")
  case None
  then show ?thesis by simp
next
  case (Some p)
  obtain e p' w' where r: "data_received X p (shared s) raw = (e, p', w')"
    by (cases "data_received X p (shared s) raw") auto
  from data_received_registry [OF r] Some r show ?thesis by simp
qed

text \<open>
  Claim C9. Start the server with no connection and let the event loop deliver any
  sequence of events. In the state reached, every session in the registry is in state
  \<open>STATE_CONNECTED\<close>, no other state is recorded anywhere in the dictionary, and
  \<open>broadcast\<close> of any frame returns normally without writing to any transport.
\<close>

theorem connecting_is_invariant:
  "(\<forall>t\<in>set (connections (shared (run X (startup B) evs))).
       connection_states (shared (run X (startup B) evs)) t = Some STATE_CONNECTED)
   \<and> (\<forall>t st. connection_states (shared (run X (startup B) evs)) t = Some st
         \<longrightarrow> st = STATE_CONNECTED)
   \<and> broadcast (shared (run X (startup B) evs)) frame
       = (None, shared (run X (startup B) evs))"
proof -
  let ?s = "run X (startup B) evs"
  have c: "consistent ?s" using consistent_run [of X B evs] by simp
  then have sub: "set (connections (shared ?s)) \<subseteq> dom (connection_states (shared ?s))"
    by (simp add: consistent_def)
  from c have all: "\<forall>t st. connection_states (shared ?s) t = Some st \<longrightarrow> st = STATE_CONNECTED"
    by (simp add: consistent_def)
  have conn: "\<forall>t\<in>set (connections (shared ?s)).
                connection_states (shared ?s) t = Some STATE_CONNECTED"
    using sub all by (auto simp: dom_def)
  then have "filter (\<lambda>t. connection_states (shared ?s) t = Some STATE_READY)
               (connections (shared ?s)) = []"
    by (auto simp: filter_empty_conv)
  then have "broadcast (shared ?s) frame = (None, shared ?s)"
    unfolding broadcast_def broadcast_loop_eq [OF sub] by simp
  with conn all show ?thesis by blast
qed

theorem connecting_is_invariant_witness:
  "0 \<in> set (connections (shared (run sample_externals (startup {})
             [Connection_made 0, Data_received 0 [0, 110, 0, 0]])))
   \<and> connection_states (shared (run sample_externals (startup {})
             [Connection_made 0, Data_received 0 [0, 110, 0, 0]])) 0 = Some STATE_CONNECTED"
proof -
  let ?evs = "[Connection_made 0, Data_received 0 [0, 110, 0, 0]]"
  have "connections (shared (run sample_externals (startup {}) ?evs))
          = connections (shared (step sample_externals (startup {}) (Connection_made 0)))"
    using step_data_received_registry
      [of sample_externals "step sample_externals (startup {}) (Connection_made 0)" 0 "[0, 110, 0, 0]"]
    by (simp add: run_def)
  also have "\<dots> = [0]"
    by (simp add: startup_def connection_made_def initialize_connection_def)
  finally have m: "0 \<in> set (connections (shared (run sample_externals (startup {}) ?evs)))"
    by simp
  with connecting_is_invariant [of sample_externals "{}" ?evs] show ?thesis
    by blast
qed

end
